theory Spec2Isabelle
  imports Complex_Main "HOL-Library.Sublist"
begin

section \<open>PiranhaGPTChat: conversation state and completion client\<close>

text \<open>
  A shallow embedding of \<^verbatim>\<open>experimental/rule_inference/piranha_chat.py\<close>.
  Python strings are \<open>string\<close>; the message dictionaries
  \<^verbatim>\<open>{"role": ..., "content": ...}\<close> are records; every exception the code can raise
  is a value of \<open>error\<close>, and a method is a function from the state before the call to
  the outcome paired with the state after it, so that the state an exception leaves
  behind can be inspected. Everything the code does to the outside (logging, printing,
  provider requests, sleeping) is appended to a trace.
\<close>

subsection \<open>Data\<close>

abbreviation nl :: char where
  "nl \<equiv> CHR 0x0A"

record message =
  role :: string
  content :: string

text \<open>The exception classes of \<^verbatim>\<open>openai.error\<close> that the provider call can raise.\<close>

datatype provider_error =
    RateLimitError
  | Timeout
  | APIError
  | TryAgain
  | APIConnectionError
  | InvalidRequestError
  | AuthenticationError
  | PermissionError
  | ServiceUnavailableError

datatype error =
    ValueError
  | KeyError string
  | IndexError
  | OSError string
  | ProviderError provider_error

text \<open>The keyword arguments of \<^verbatim>\<open>openai.ChatCompletion.create\<close>.\<close>

record request =
  req_model :: string
  req_messages :: "message list"
  req_temperature :: real
  req_n :: nat

datatype event =
    LogDebug string
  | LogError provider_error
  | Print string
  | Request request
  | Sleep nat

text \<open>
  What one call of the provider does: it returns a response, of which the code reads
  only the contents of the choices, or it raises.
\<close>

datatype outcome = Choices "string list" | Raise provider_error

text \<open>
  The four attributes of the object, and the outside world: how many provider calls
  have been made so far and the trace of effects.
\<close>

record state =
  holes :: "string \<rightharpoonup> string"
  messages :: "message list"
  temperature :: real
  model :: string
  calls :: nat
  trace :: "event list"

text \<open>
  The file system as \<^verbatim>\<open>_get_examples\<close> sees it: what \<^verbatim>\<open>os.walk\<close> yields for a
  path, as triples (root, dirs, files) in traversal order, and what
  \<^verbatim>\<open>Path(...).read_text()\<close> returns or raises for a file name.
\<close>

record filesystem =
  walk :: "string \<Rightarrow> (string \<times> string list \<times> string list) list"
  read_text :: "string \<Rightarrow> error + string"

subsection \<open>The task template\<close>

text \<open>
  \<^verbatim>\<open>str.format\<close> scans the template from left to right, copies literal text and
  replaces each field \<^verbatim>\<open>{name}\<close> by the keyword argument of that name; the first
  field without one raises \<^verbatim>\<open>KeyError\<close>. The template is kept in scanned form.
\<close>

datatype segment = Lit string | Hole string

definition input_template :: "segment list" where
  "input_template =
    [Lit ([nl] @ ''========================= Task ========================='' @ [nl]
          @ [nl] @ ''=== Source code === '' @ [nl] @ [nl]),
     Hole ''source_code'',
     Lit ([nl] @ [nl] @ ''=== Tree-sitter representation (source code) ==='' @ [nl] @ [nl]),
     Hole ''source_tree'',
     Lit ([nl] @ [nl] @ ''=== Tree-sitter representation (target code) ==='' @ [nl] @ [nl]),
     Hole ''target_tree'',
     Lit ([nl] @ [nl] @ ''=== Diff === '' @ [nl] @ [nl]),
     Hole ''diff'',
     Lit ([nl] @ [nl] @ ''=== Additional requirements === '' @ [nl] @ [nl]),
     Hole ''hints'',
     Lit ([nl] @ ''========================= Please improve my rule =========================''
          @ [nl] @ [nl] @ ''    '')]"

fun format :: "segment list \<Rightarrow> (string \<rightharpoonup> string) \<Rightarrow> error + string" where
  "format [] kw = Inr []"
| "format (Lit s # segs) kw =
     (case format segs kw of Inl e \<Rightarrow> Inl e | Inr t \<Rightarrow> Inr (s @ t))"
| "format (Hole k # segs) kw =
     (case kw k of
        None \<Rightarrow> Inl (KeyError k)
      | Some v \<Rightarrow> (case format segs kw of Inl e \<Rightarrow> Inl e | Inr t \<Rightarrow> Inr (v @ t)))"

subsection \<open>Gathering the examples\<close>

text \<open>\<^verbatim>\<open>s.split("\n")\<close> and \<^verbatim>\<open>"\n".join(xs)\<close>.\<close>

fun split_nl :: "string \<Rightarrow> string list" where
  "split_nl [] = [[]]"
| "split_nl (c # cs) =
     (if c = nl then [] # split_nl cs
      else (case split_nl cs of [] \<Rightarrow> [[c]] | l # ls \<Rightarrow> (c # l) # ls))"

fun join_nl :: "string list \<Rightarrow> string" where
  "join_nl [] = []"
| "join_nl [x] = x"
| "join_nl (x # y # ys) = x @ [nl] @ join_nl (y # ys)"

text \<open>\<^verbatim>\<open>os.path.join\<close> of two components, as \<^verbatim>\<open>posixpath\<close> defines it.\<close>

definition path_join :: "string \<Rightarrow> string \<Rightarrow> string" where
  "path_join a b =
     (if prefix ''/'' b then b
      else if a = [] \<or> suffix ''/'' a then a @ b
      else a @ ''/'' @ b)"

text \<open>The body of the inner loop for one matching file, appended to \<open>task_examples\<close>.\<close>

definition add_file :: "filesystem \<Rightarrow> string \<Rightarrow> string \<Rightarrow> string \<Rightarrow> error + string" where
  "add_file fs rootdir file task_examples =
     (let file_name = path_join rootdir file in
      case read_text fs file_name of
        Inl e \<Rightarrow> Inl e
      | Inr file_contents \<Rightarrow>
          let file_contents = join_nl (filter (\<lambda>line. \<not> prefix ''#'' line) (split_nl file_contents));
              task_examples = task_examples @ ''<file_name_start> '' @ file_name @ '' <file_name_end>'' @ [nl];
              task_examples = task_examples @ ''```toml '' @ file_contents @ ''```'' @ [nl]
          in Inr task_examples)"

fun files_loop :: "filesystem \<Rightarrow> string \<Rightarrow> string list \<Rightarrow> string \<Rightarrow> error + string" where
  "files_loop fs rootdir [] task_examples = Inr task_examples"
| "files_loop fs rootdir (file # files) task_examples =
     (if suffix ''rules.toml'' file then
        (case add_file fs rootdir file task_examples of
           Inl e \<Rightarrow> Inl e
         | Inr task_examples \<Rightarrow> files_loop fs rootdir files task_examples)
      else files_loop fs rootdir files task_examples)"

fun walk_loop :: "filesystem \<Rightarrow> (string \<times> string list \<times> string list) list \<Rightarrow> string \<Rightarrow> error + string" where
  "walk_loop fs [] task_examples = Inr task_examples"
| "walk_loop fs ((rootdir, dirs, files) # rest) task_examples =
     (case files_loop fs rootdir files task_examples of
        Inl e \<Rightarrow> Inl e
      | Inr task_examples \<Rightarrow> walk_loop fs rest task_examples)"

definition get_examples :: "filesystem \<Rightarrow> string \<Rightarrow> error + string" where
  "get_examples fs path_to_examples_rules = walk_loop fs (walk fs path_to_examples_rules) []"

subsection \<open>Construction\<close>

text \<open>
  The validators that the generated \<^verbatim>\<open>__init__\<close> runs, in the order of the
  attributes, before it calls \<^verbatim>\<open>__attrs_post_init__\<close>: \<^verbatim>\<open>ge(0)\<close> and
  \<^verbatim>\<open>le(1)\<close> on the temperature, \<^verbatim>\<open>in_\<close> on the model. Each raises
  \<^verbatim>\<open>ValueError\<close>.
\<close>

definition validate :: "state \<Rightarrow> error + unit" where
  "validate s =
     (if \<not> temperature s \<ge> 0 then Inl ValueError
      else if \<not> temperature s \<le> 1 then Inl ValueError
      else if \<not> model s \<in> set [''gpt-4'', ''gpt-4-32k'', ''gpt-3.5-turbo-16k'']
        then Inl ValueError
      else Inr ())"

text \<open>
  The class attribute \<^verbatim>\<open>explanation\<close> is a fixed text of some two hundred lines
  that the code only concatenates; the model takes it as the parameter
  \<open>explanation\<close>, so every result holds for that text in particular.
\<close>

definition attrs_post_init :: "string \<Rightarrow> filesystem \<Rightarrow> state \<Rightarrow> (error + unit) \<times> state" where
  "attrs_post_init explanation fs s =
     (case get_examples fs ''../../src/cleanup_rules/java'' of
        Inl e \<Rightarrow> (Inl e, s)
      | Inr examples \<Rightarrow>
          (case format input_template (holes s) of
             Inl e \<Rightarrow> (Inl e, s)
           | Inr filled \<Rightarrow>
               let formatted = explanation @ [nl] @ examples @ [nl] @ filled
               in (Inr (), s\<lparr>messages := messages s @ [\<lparr>role = ''user'', content = formatted\<rparr>]\<rparr>)))"

text \<open>
  The generated \<^verbatim>\<open>__init__\<close>: the state passed in holds the four arguments as
  assigned to the attributes.
\<close>

definition construct :: "string \<Rightarrow> filesystem \<Rightarrow> state \<Rightarrow> (error + unit) \<times> state" where
  "construct explanation fs s =
     (case validate s of
        Inl e \<Rightarrow> (Inl e, s)
      | Inr _ \<Rightarrow> attrs_post_init explanation fs s)"

subsection \<open>Conversation state\<close>

definition append_system_message :: "string \<Rightarrow> state \<Rightarrow> state" where
  "append_system_message system_message s =
     s\<lparr>messages := messages s @ [\<lparr>role = ''assistant'', content = system_message\<rparr>]\<rparr>"

definition append_user_followup :: "string \<Rightarrow> state \<Rightarrow> state" where
  "append_user_followup followup_message s =
     s\<lparr>messages := messages s @ [\<lparr>role = ''user'', content = followup_message\<rparr>]\<rparr>"

subsection \<open>Completion client\<close>

definition emit :: "event list \<Rightarrow> state \<Rightarrow> state" where
  "emit evs s = s\<lparr>trace := trace s @ evs\<rparr>"

text \<open>The exception classes named in the \<^verbatim>\<open>except\<close> clause.\<close>

fun transient :: "provider_error \<Rightarrow> bool" where
  "transient RateLimitError = True"
| "transient Timeout = True"
| "transient APIError = True"
| "transient _ = False"

definition request_of :: "state \<Rightarrow> nat \<Rightarrow> request" where
  "request_of s n_samples =
     \<lparr>req_model = model s, req_messages = messages s,
      req_temperature = temperature s, req_n = n_samples\<rparr>"

text \<open>
  The \<^verbatim>\<open>try\<close> body up to the provider call: the debug line, the print of the last
  message, the request. The provider's answer to call number \<open>k\<close> is \<open>provider k\<close>.
\<close>

definition attempt :: "nat \<Rightarrow> state \<Rightarrow> state" where
  "attempt n_samples s =
     (emit [LogDebug ''Attempting to get completion from GPT.'',
            Print (content (last (messages s)) @ [nl]),
            Request (request_of s n_samples)] s)\<lparr>calls := Suc (calls s)\<rparr>"

text \<open>The \<^verbatim>\<open>except\<close> handler.\<close>

definition handler :: "provider_error \<Rightarrow> state \<Rightarrow> state" where
  "handler e s =
     (let sleep_time = 10
      in emit [LogError e, Print ''Rate limit reached. Sleeping for 10s.'', Sleep sleep_time] s)"

text \<open>
  \<^verbatim>\<open>while True\<close>: the loop has no bound, so \<open>None\<close> stands for a call that never
  returns. With no message, \<^verbatim>\<open>self.messages[-1]\<close> raises \<^verbatim>\<open>IndexError\<close> inside
  the \<^verbatim>\<open>try\<close>, which the handler does not catch.
\<close>

partial_function (option) get_completion ::
  "(nat \<Rightarrow> outcome) \<Rightarrow> nat \<Rightarrow> state \<Rightarrow> ((error + string list) \<times> state) option" where
  "get_completion provider n_samples s =
     (if messages s = [] then
        Some (Inl IndexError, emit [LogDebug ''Attempting to get completion from GPT.''] s)
      else
        (case provider (calls s) of
           Choices choices \<Rightarrow>
             Some (Inr (map (\<lambda>i. choices ! i) [0..<length choices]), attempt n_samples s)
         | Raise e \<Rightarrow>
             if transient e then get_completion provider n_samples (handler e (attempt n_samples s))
             else Some (Inl (ProviderError e), attempt n_samples s)))"

definition get_model_response ::
  "(nat \<Rightarrow> outcome) \<Rightarrow> state \<Rightarrow> ((error + string) \<times> state) option" where
  "get_model_response provider s =
     (if messages s = [] then Some (Inl IndexError, s)
      else
        let latest_message = last (messages s) in
        if role latest_message = ''assistant'' then
          Some (Inr (content latest_message),
                emit [Print (''System: '' @ content latest_message @ [nl])] s)
        else
          (case get_completion provider 1 s of
             None \<Rightarrow> None
           | Some (Inl e, s') \<Rightarrow> Some (Inl e, s')
           | Some (Inr completions, s') \<Rightarrow>
               (case completions of
                  [] \<Rightarrow> Some (Inl IndexError, s')
                | c # _ \<Rightarrow> Some (Inr c, append_system_message c s'))))"

subsection \<open>Reading a trace\<close>

fun sleeps :: "event list \<Rightarrow> nat list" where
  "sleeps [] = []"
| "sleeps (Sleep d # evs) = d # sleeps evs"
| "sleeps (_ # evs) = sleeps evs"

fun logged_errors :: "event list \<Rightarrow> provider_error list" where
  "logged_errors [] = []"
| "logged_errors (LogError e # evs) = e # logged_errors evs"
| "logged_errors (_ # evs) = logged_errors evs"

fun requests :: "event list \<Rightarrow> request list" where
  "requests [] = []"
| "requests (Request r # evs) = r # requests evs"
| "requests (_ # evs) = requests evs"

subsection \<open>The example corpus as the specification words it\<close>

text \<open>
  The files that match, by full path, in traversal order; a file's content without the
  lines that start with the comment marker; the block of one file.
\<close>

definition matching_files :: "(string \<times> string list \<times> string list) list \<Rightarrow> string list" where
  "matching_files triples =
     concat (map (\<lambda>(rootdir, dirs, files).
       map (path_join rootdir) (filter (suffix ''rules.toml'') files)) triples)"

definition strip_comments :: "string \<Rightarrow> string" where
  "strip_comments text = join_nl (filter (\<lambda>line. \<not> prefix ''#'' line) (split_nl text))"

definition block :: "string \<Rightarrow> string \<Rightarrow> string" where
  "block path text =
     ''<file_name_start> '' @ path @ '' <file_name_end>'' @ [nl]
     @ ''```toml '' @ strip_comments text @ ''```'' @ [nl]"

subsection \<open>Example inputs\<close>

definition example_state :: state where
  "example_state =
     \<lparr>holes = Map.empty, messages = [\<lparr>role = ''user'', content = ''hi''\<rparr>],
      temperature = 0.3, model = ''gpt-4'', calls = 0, trace = []\<rparr>"

definition answered_state :: state where
  "answered_state = append_system_message ''done'' example_state"

text \<open>Two transient failures, then two samples.\<close>

definition flaky_provider :: "nat \<Rightarrow> outcome" where
  "flaky_provider k =
     (if k = 0 then Raise RateLimitError
      else if k = 1 then Raise Timeout
      else Choices [''a'', ''b''])"

definition steady_provider :: "nat \<Rightarrow> outcome" where
  "steady_provider k = Choices [''a'', ''b'']"

definition denying_provider :: "nat \<Rightarrow> outcome" where
  "denying_provider k = Raise AuthenticationError"

text \<open>One transient failure, then a failure that is not transient.\<close>

definition failing_provider :: "nat \<Rightarrow> outcome" where
  "failing_provider k = (if k = 0 then Raise Timeout else Raise InvalidRequestError)"

text \<open>
  A directory with \<^verbatim>\<open>a/rules.toml\<close>, a comment line and a line of code, and
  \<^verbatim>\<open>b/notes.txt\<close>.
\<close>

definition example_fs :: filesystem where
  "example_fs =
     \<lparr>walk = (\<lambda>path. [(path, [''a'', ''b''], []),
                       (path_join path ''a'', [], [''rules.toml'']),
                       (path_join path ''b'', [], [''notes.txt''])]),
      read_text = (\<lambda>file_name.
         if file_name = ''../../src/cleanup_rules/java/a/rules.toml''
         then Inr (''# comment'' @ [nl] @ ''x = 1'')
         else Inl (OSError file_name))\<rparr>"

definition full_holes :: "string \<rightharpoonup> string" where
  "full_holes =
     [''source_code'' \<mapsto> ''S'', ''source_tree'' \<mapsto> ''T'', ''target_tree'' \<mapsto> ''U'',
      ''diff'' \<mapsto> ''D'', ''hints'' \<mapsto> ''H'', ''extra'' \<mapsto> ''X'']"

definition fresh_state :: state where
  "fresh_state =
     \<lparr>holes = full_holes, messages = [], temperature = 0.3, model = ''gpt-4'',
      calls = 0, trace = []\<rparr>"

section \<open>Properties\<close>

subsection \<open>Auxiliary facts\<close>

lemma sleeps_append: "sleeps (xs @ ys) = sleeps xs @ sleeps ys"
  by (induction xs rule: sleeps.induct) simp_all

lemma logged_errors_append: "logged_errors (xs @ ys) = logged_errors xs @ logged_errors ys"
  by (induction xs rule: logged_errors.induct) simp_all

lemma requests_append: "requests (xs @ ys) = requests xs @ requests ys"
  by (induction xs rule: requests.induct) simp_all

lemma attempt_fields:
  "messages (attempt n s) = messages s" "calls (attempt n s) = Suc (calls s)"
  "holes (attempt n s) = holes s" "temperature (attempt n s) = temperature s"
  "model (attempt n s) = model s"
  "trace (attempt n s) = trace s @ [LogDebug ''Attempting to get completion from GPT.'',
            Print (content (last (messages s)) @ [nl]), Request (request_of s n)]"
  by (simp_all add: attempt_def emit_def)

lemma handler_fields:
  "messages (handler e s) = messages s" "calls (handler e s) = calls s"
  "holes (handler e s) = holes s" "temperature (handler e s) = temperature s"
  "model (handler e s) = model s"
  "trace (handler e s) = trace s @ [LogError e, Print ''Rate limit reached. Sleeping for 10s.'', Sleep 10]"
  by (simp_all add: handler_def emit_def)

lemma retry_prefix:
  assumes "messages s \<noteq> []"
    and "\<forall>i<length es. provider (calls s + i) = Raise (es ! i) \<and> transient (es ! i)"
  shows "\<exists>s1. get_completion provider n s = get_completion provider n s1
      \<and> messages s1 = messages s \<and> holes s1 = holes s \<and> temperature s1 = temperature s
      \<and> model s1 = model s \<and> calls s1 = calls s + length es
      \<and> sleeps (trace s1) = sleeps (trace s) @ replicate (length es) 10
      \<and> logged_errors (trace s1) = logged_errors (trace s) @ es
      \<and> requests (trace s1) = requests (trace s) @ replicate (length es) (request_of s n)"
  using assms
proof (induction es arbitrary: s)
  case Nil
  then show ?case by auto
next
  case (Cons e es)
  let ?s' = "handler e (attempt n s)"
  from Cons.prems(2) have h0: "provider (calls s) = Raise e" "transient e"
    by force+
  have step: "get_completion provider n s = get_completion provider n ?s'"
    using Cons.prems(1) h0 by (subst get_completion.simps) simp
  have m: "messages ?s' \<noteq> []"
    using Cons.prems(1) by (simp add: handler_fields attempt_fields)
  have sh: "\<forall>i<length es. provider (calls ?s' + i) = Raise (es ! i) \<and> transient (es ! i)"
  proof (intro allI impI)
    fix i assume "i < length es"
    then have "Suc i < length (e # es)" by simp
    with Cons.prems(2) have "provider (calls s + Suc i) = Raise ((e # es) ! Suc i) \<and> transient ((e # es) ! Suc i)"
      by blast
    then show "provider (calls ?s' + i) = Raise (es ! i) \<and> transient (es ! i)"
      by (simp add: handler_fields attempt_fields)
  qed
  from Cons.IH[OF m sh] obtain s1 where s1:
    "get_completion provider n ?s' = get_completion provider n s1"
    "messages s1 = messages ?s'" "holes s1 = holes ?s'" "temperature s1 = temperature ?s'"
    "model s1 = model ?s'" "calls s1 = calls ?s' + length es"
    "sleeps (trace s1) = sleeps (trace ?s') @ replicate (length es) 10"
    "logged_errors (trace s1) = logged_errors (trace ?s') @ es"
    "requests (trace s1) = requests (trace ?s') @ replicate (length es) (request_of ?s' n)"
    by blast
  have rq: "request_of ?s' n = request_of s n"
    by (simp add: request_of_def handler_fields attempt_fields)
  show ?case
    apply (rule exI[of _ s1])
    using s1 step rq
    by (simp add: handler_fields attempt_fields sleeps_append logged_errors_append
        requests_append replicate_app_Cons_same)
qed


lemma choices_list: "map (\<lambda>i. choices ! i) [0..<length choices] = choices"
  by (rule map_nth)

lemma get_completion_success:
  "messages s \<noteq> [] \<Longrightarrow> provider (calls s) = Choices choices \<Longrightarrow>
   get_completion provider n s = Some (Inr choices, attempt n s)"
  by (subst get_completion.simps) (simp add: choices_list)

lemma get_completion_fatal:
  "messages s \<noteq> [] \<Longrightarrow> provider (calls s) = Raise e \<Longrightarrow> \<not> transient e \<Longrightarrow>
   get_completion provider n s = Some (Inl (ProviderError e), attempt n s)"
  by (subst get_completion.simps) simp

subsection \<open>Retrying\<close>

text \<open>
  Claim C1. When \<^verbatim>\<open>get_completion\<close> is called on a conversation that is not empty
  and the provider raises the transient errors \<open>es\<close> on the first \<open>length es\<close>
  attempts and returns choices on the next, the call returns exactly these choices,
  in the provider's order. It has logged each of the errors, in order, has slept
  once per failure and 10 each time, has made one request per attempt, each with the
  same arguments, and has left the conversation as it was.
\<close>

theorem get_completion_retries:
  assumes "messages s \<noteq> []"
    and "\<forall>i<length es. provider (calls s + i) = Raise (es ! i) \<and> transient (es ! i)"
    and "provider (calls s + length es) = Choices choices"
  shows "\<exists>s'. get_completion provider n s = Some (Inr choices, s')
      \<and> sleeps (trace s') = sleeps (trace s) @ replicate (length es) 10
      \<and> logged_errors (trace s') = logged_errors (trace s) @ es
      \<and> requests (trace s') = requests (trace s) @ replicate (Suc (length es)) (request_of s n)
      \<and> calls s' = calls s + length es + 1
      \<and> messages s' = messages s"
proof -
  from retry_prefix[OF assms(1,2), of n] obtain s1 where s1:
    "get_completion provider n s = get_completion provider n s1"
    "messages s1 = messages s" "holes s1 = holes s" "temperature s1 = temperature s"
    "model s1 = model s" "calls s1 = calls s + length es"
    "sleeps (trace s1) = sleeps (trace s) @ replicate (length es) 10"
    "logged_errors (trace s1) = logged_errors (trace s) @ es"
    "requests (trace s1) = requests (trace s) @ replicate (length es) (request_of s n)"
    by blast
  have rq: "request_of s1 n = request_of s n"
    using s1 by (simp add: request_of_def)
  have "get_completion provider n s1 = Some (Inr choices, attempt n s1)"
    using assms(1,3) s1 by (intro get_completion_success) simp_all
  with s1 rq show ?thesis
    by (intro exI[of _ "attempt n s1"])
       (simp add: attempt_fields sleeps_append logged_errors_append requests_append
          replicate_append_same)
qed

theorem get_completion_retries_witness:
  "\<exists>s'. get_completion flaky_provider 2 example_state = Some (Inr [''a'', ''b''], s')
      \<and> sleeps (trace s') = [10, 10]
      \<and> logged_errors (trace s') = [RateLimitError, Timeout]
      \<and> length (requests (trace s')) = 3
      \<and> calls s' = 3
      \<and> messages s' = [\<lparr>role = ''user'', content = ''hi''\<rparr>]"
  using get_completion_retries [of example_state "[RateLimitError, Timeout]" flaky_provider
      "[''a'', ''b'']" 2]
  by (auto simp add: example_state_def flaky_provider_def less_Suc_eq numeral_2_eq_2)

subsection \<open>Responses\<close>

text \<open>
  Claim C2. When the last message of the conversation has the role
  \<^verbatim>\<open>assistant\<close>, \<^verbatim>\<open>get_model_response\<close> returns the content of that message,
  whatever the provider would do: no request is made, nothing is slept, and the
  conversation is unchanged.
\<close>

theorem cached_response:
  assumes "messages s \<noteq> []" and "role (last (messages s)) = ''assistant''"
  shows "\<exists>s'. get_model_response provider s = Some (Inr (content (last (messages s))), s')
      \<and> messages s' = messages s
      \<and> calls s' = calls s
      \<and> requests (trace s') = requests (trace s)
      \<and> sleeps (trace s') = sleeps (trace s)"
  using assms
  by (simp add: get_model_response_def Let_def emit_def requests_append sleeps_append)

theorem cached_response_witness:
  "\<exists>s'. get_model_response denying_provider answered_state = Some (Inr ''done'', s')
      \<and> messages s' = messages answered_state
      \<and> calls s' = 0
      \<and> requests (trace s') = []
      \<and> sleeps (trace s') = []"
  using cached_response [of answered_state denying_provider]
  by (simp add: answered_state_def example_state_def append_system_message_def)

text \<open>
  Claim C3. When the last message does not have the role \<^verbatim>\<open>assistant\<close> and the
  provider answers the first attempt with at least one choice,
  \<^verbatim>\<open>get_model_response\<close> makes exactly one request, carrying the whole
  conversation and asking for one sample, appends the first choice once as an
  \<^verbatim>\<open>assistant\<close> message, and returns its content.
\<close>

theorem fresh_response:
  assumes "messages s \<noteq> []" and "role (last (messages s)) \<noteq> ''assistant''"
    and "provider (calls s) = Choices (c # cs)"
  shows "\<exists>s'. get_model_response provider s = Some (Inr c, s')
      \<and> messages s' = messages s @ [\<lparr>role = ''assistant'', content = c\<rparr>]
      \<and> calls s' = Suc (calls s)
      \<and> requests (trace s') = requests (trace s) @ [request_of s 1]
      \<and> sleeps (trace s') = sleeps (trace s)"
proof -
  have "get_completion provider 1 s = Some (Inr (c # cs), attempt 1 s)"
    using assms(1,3) by (rule get_completion_success)
  with assms(1,2) show ?thesis
    by (simp add: get_model_response_def append_system_message_def attempt_fields
        requests_append sleeps_append)
qed

theorem fresh_response_witness:
  "\<exists>s'. get_model_response steady_provider example_state = Some (Inr ''a'', s')
      \<and> messages s' = [\<lparr>role = ''user'', content = ''hi''\<rparr>, \<lparr>role = ''assistant'', content = ''a''\<rparr>]
      \<and> calls s' = 1
      \<and> requests (trace s') = [request_of example_state 1]
      \<and> sleeps (trace s') = []"
  using fresh_response [of example_state steady_provider "''a''" "[''b'']"]
  by (simp add: example_state_def steady_provider_def)

subsection \<open>The loop never touches the conversation\<close>

lemma get_completion_keeps_aux:
  assumes "get_completion provider n s = Some y"
  shows "messages (snd y) = messages s"
proof (rule get_completion.raw_induct
    [where P = "\<lambda>provider n s y. messages (snd y) = messages s", OF _ assms])
  fix rec :: "(nat \<Rightarrow> outcome) \<Rightarrow> nat \<Rightarrow> state \<Rightarrow> ((error + string list) \<times> state) option"
  fix provider n s y
  assume 1: "\<And>provider n s y. rec provider n s = Some y \<Longrightarrow> messages (snd y) = messages s"
    "(if messages s = [] then
        Some (Inl IndexError, emit [LogDebug ''Attempting to get completion from GPT.''] s)
      else
        (case provider (calls s) of
           Choices choices \<Rightarrow>
             Some (Inr (map (\<lambda>i. choices ! i) [0..<length choices]), attempt n s)
         | Raise e \<Rightarrow>
             if transient e then rec provider n (handler e (attempt n s))
             else Some (Inl (ProviderError e), attempt n s))) = Some y"
  show "messages (snd y) = messages s"
  proof (cases "messages s = []")
    case True
    with 1(2) show ?thesis by (auto simp: emit_def)
  next
    case False
    show ?thesis
    proof (cases "provider (calls s)")
      case (Choices choices)
      with False 1(2) show ?thesis by (auto simp: attempt_fields)
    next
      case (Raise e)
      show ?thesis
      proof (cases "transient e")
        case True
        with False Raise 1(2) have "rec provider n (handler e (attempt n s)) = Some y"
          by simp
        from 1(1)[OF this] show ?thesis
          by (simp add: handler_fields attempt_fields)
      next
        case False
        with \<open>messages s \<noteq> []\<close> Raise 1(2) show ?thesis by (auto simp: attempt_fields)
      qed
    qed
  qed
qed

lemma get_completion_keeps:
  "get_completion provider n s = Some (r, s') \<Longrightarrow> messages s' = messages s"
  by (drule get_completion_keeps_aux) simp


subsection \<open>Errors that are not retried\<close>

lemma get_completion_fatal_after:
  assumes "messages s \<noteq> []"
    and "\<forall>i<length es. provider (calls s + i) = Raise (es ! i) \<and> transient (es ! i)"
    and "provider (calls s + length es) = Raise e" and "\<not> transient e"
  shows "\<exists>s'. get_completion provider n s = Some (Inl (ProviderError e), s')
      \<and> messages s' = messages s
      \<and> sleeps (trace s') = sleeps (trace s) @ replicate (length es) 10
      \<and> logged_errors (trace s') = logged_errors (trace s) @ es
      \<and> calls s' = calls s + length es + 1
      \<and> trace s' \<noteq> [] \<and> last (trace s') = Request (request_of s n)"
proof -
  from retry_prefix[OF assms(1,2), of n] obtain s1 where s1:
    "get_completion provider n s = get_completion provider n s1"
    "messages s1 = messages s" "holes s1 = holes s" "temperature s1 = temperature s"
    "model s1 = model s" "calls s1 = calls s + length es"
    "sleeps (trace s1) = sleeps (trace s) @ replicate (length es) 10"
    "logged_errors (trace s1) = logged_errors (trace s) @ es"
    by blast
  have rq: "request_of s1 n = request_of s n"
    using s1 by (simp add: request_of_def)
  have "get_completion provider n s1 = Some (Inl (ProviderError e), attempt n s1)"
    using assms(1,3,4) s1 by (intro get_completion_fatal) simp_all
  with s1 rq show ?thesis
    by (intro exI[of _ "attempt n s1"])
       (simp add: attempt_fields sleeps_append logged_errors_append)
qed

text \<open>
  Claim C4 as stated fails: when the provider raises \<^verbatim>\<open>Timeout\<close> on the first
  attempt and \<^verbatim>\<open>InvalidRequestError\<close> on the second, \<^verbatim>\<open>get_model_response\<close>
  fails with the second error, which is outside the transient set, and the call has
  slept once.
\<close>

theorem fatal_error_no_sleep_counterexample:
  "map_option fst (get_model_response failing_provider example_state)
     = Some (Inl (ProviderError InvalidRequestError))
   \<and> map_option (sleeps \<circ> trace \<circ> snd) (get_model_response failing_provider example_state)
     = Some [10]"
proof -
  have 1: "get_completion failing_provider 1 example_state
        = get_completion failing_provider 1 (handler Timeout (attempt 1 example_state))"
    by (subst get_completion.simps) (simp add: example_state_def failing_provider_def)
  have 2: "get_completion failing_provider 1 (handler Timeout (attempt 1 example_state))
        = Some (Inl (ProviderError InvalidRequestError),
                attempt 1 (handler Timeout (attempt 1 example_state)))"
    by (rule get_completion_fatal)
       (simp_all add: handler_fields attempt_fields example_state_def failing_provider_def)
  have "get_model_response failing_provider example_state
        = Some (Inl (ProviderError InvalidRequestError),
                attempt 1 (handler Timeout (attempt 1 example_state)))"
    using 1 2 by (simp add: get_model_response_def example_state_def)
  then show ?thesis
    by (simp add: attempt_fields handler_fields sleeps_append) (simp add: example_state_def)
qed

text \<open>
  Claim C4, amended. When the last message does not have the role \<^verbatim>\<open>assistant\<close>
  and the provider raises an error that is none of the three transient ones, on the
  first attempt or after the transient errors \<open>es\<close>, \<^verbatim>\<open>get_model_response\<close> fails
  with exactly that error and appends nothing to the conversation. It does not sleep
  for that error: the request that raised it is the last event of the call, and the
  sleeps of the call are one of 10 for each transient failure before it, so none
  when the first attempt fails this way.
\<close>

theorem fatal_error_after_retries:
  assumes "messages s \<noteq> []" and "role (last (messages s)) \<noteq> ''assistant''"
    and "\<forall>i<length es. provider (calls s + i) = Raise (es ! i) \<and> transient (es ! i)"
    and "provider (calls s + length es) = Raise e" and "\<not> transient e"
  shows "\<exists>s'. get_model_response provider s = Some (Inl (ProviderError e), s')
      \<and> messages s' = messages s
      \<and> sleeps (trace s') = sleeps (trace s) @ replicate (length es) 10
      \<and> logged_errors (trace s') = logged_errors (trace s) @ es
      \<and> calls s' = calls s + length es + 1
      \<and> trace s' \<noteq> [] \<and> last (trace s') = Request (request_of s 1)"
proof -
  from get_completion_fatal_after [OF assms(1,3,4,5), of 1] obtain s' where s':
    "get_completion provider 1 s = Some (Inl (ProviderError e), s')"
    "messages s' = messages s"
    "sleeps (trace s') = sleeps (trace s) @ replicate (length es) 10"
    "logged_errors (trace s') = logged_errors (trace s) @ es"
    "calls s' = calls s + length es + 1"
    "trace s' \<noteq> []" "last (trace s') = Request (request_of s 1)"
    by blast
  from assms(1,2) s'(1) have "get_model_response provider s = Some (Inl (ProviderError e), s')"
    by (simp add: get_model_response_def)
  with s' show ?thesis by blast
qed

theorem fatal_error_after_retries_witness:
  "(\<exists>s'. get_model_response denying_provider example_state
          = Some (Inl (ProviderError AuthenticationError), s')
       \<and> messages s' = [\<lparr>role = ''user'', content = ''hi''\<rparr>]
       \<and> sleeps (trace s') = []
       \<and> logged_errors (trace s') = []
       \<and> calls s' = 1
       \<and> last (trace s') = Request (request_of example_state 1))
   \<and> (\<exists>s'. get_model_response failing_provider example_state
          = Some (Inl (ProviderError InvalidRequestError), s')
       \<and> messages s' = [\<lparr>role = ''user'', content = ''hi''\<rparr>]
       \<and> sleeps (trace s') = [10]
       \<and> logged_errors (trace s') = [Timeout]
       \<and> calls s' = 2
       \<and> last (trace s') = Request (request_of example_state 1))"
proof
  show "\<exists>s'. get_model_response denying_provider example_state
          = Some (Inl (ProviderError AuthenticationError), s')
       \<and> messages s' = [\<lparr>role = ''user'', content = ''hi''\<rparr>]
       \<and> sleeps (trace s') = []
       \<and> logged_errors (trace s') = []
       \<and> calls s' = 1
       \<and> last (trace s') = Request (request_of example_state 1)"
    using fatal_error_after_retries
      [of example_state "[]" denying_provider AuthenticationError]
    by (auto simp add: example_state_def denying_provider_def)
  show "\<exists>s'. get_model_response failing_provider example_state
          = Some (Inl (ProviderError InvalidRequestError), s')
       \<and> messages s' = [\<lparr>role = ''user'', content = ''hi''\<rparr>]
       \<and> sleeps (trace s') = [10]
       \<and> logged_errors (trace s') = [Timeout]
       \<and> calls s' = 2
       \<and> last (trace s') = Request (request_of example_state 1)"
    using fatal_error_after_retries
      [of example_state "[Timeout]" failing_provider InvalidRequestError]
    by (auto simp add: example_state_def failing_provider_def)
qed

subsection \<open>More than one sample\<close>

text \<open>
  Claim C5 as stated fails: \<^verbatim>\<open>get_completion\<close> with two samples requested returns
  both of them, and the conversation afterwards is still the single user message; the
  first sample has not been appended.
\<close>

theorem first_sample_appended_counterexample:
  "map_option fst (get_completion steady_provider 2 example_state) = Some (Inr [''a'', ''b''])
   \<and> map_option (messages \<circ> snd) (get_completion steady_provider 2 example_state)
       = Some [\<lparr>role = ''user'', content = ''hi''\<rparr>]
   \<and> map_option (messages \<circ> snd) (get_completion steady_provider 2 example_state)
       \<noteq> Some (messages example_state @ [\<lparr>role = ''assistant'', content = ''a''\<rparr>])"
proof -
  have "get_completion steady_provider 2 example_state
        = Some (Inr [''a'', ''b''], attempt 2 example_state)"
    by (rule get_completion_success) (simp_all add: example_state_def steady_provider_def)
  then show ?thesis
    by (simp add: attempt_fields) (simp add: example_state_def)
qed

text \<open>
  Claim C5, amended. When \<^verbatim>\<open>get_completion\<close> is asked for a number of samples,
  larger than one or not, every request of the call asks the provider for that
  number, all the choices of the answer are returned as a list in the provider's
  order, and no sample is appended to the conversation.
\<close>

theorem samples_in_order_none_appended:
  assumes "messages s \<noteq> []"
    and "\<forall>i<length es. provider (calls s + i) = Raise (es ! i) \<and> transient (es ! i)"
    and "provider (calls s + length es) = Choices choices"
  shows "\<exists>s'. get_completion provider n_samples s = Some (Inr choices, s')
      \<and> messages s' = messages s
      \<and> map req_n (requests (trace s'))
          = map req_n (requests (trace s)) @ replicate (Suc (length es)) n_samples"
proof -
  from retry_prefix[OF assms(1,2), of n_samples] obtain s1 where s1:
    "get_completion provider n_samples s = get_completion provider n_samples s1"
    "messages s1 = messages s" "calls s1 = calls s + length es"
    "requests (trace s1)
       = requests (trace s) @ replicate (length es) (request_of s n_samples)"
    by blast
  have n: "req_n (request_of s n_samples) = n_samples" "req_n (request_of s1 n_samples) = n_samples"
    by (simp_all add: request_of_def)
  have "get_completion provider n_samples s1 = Some (Inr choices, attempt n_samples s1)"
    using assms(1,3) s1 by (intro get_completion_success) simp_all
  with s1 n show ?thesis
    by (intro exI[of _ "attempt n_samples s1"])
       (simp add: attempt_fields requests_append replicate_append_same)
qed

theorem samples_in_order_none_appended_witness:
  "(\<exists>s'. get_completion steady_provider 2 example_state = Some (Inr [''a'', ''b''], s')
       \<and> messages s' = [\<lparr>role = ''user'', content = ''hi''\<rparr>]
       \<and> map req_n (requests (trace s')) = [2])
   \<and> (\<exists>s'. get_completion flaky_provider 3 example_state = Some (Inr [''a'', ''b''], s')
       \<and> messages s' = [\<lparr>role = ''user'', content = ''hi''\<rparr>]
       \<and> map req_n (requests (trace s')) = [3, 3, 3])"
proof
  show "\<exists>s'. get_completion steady_provider 2 example_state = Some (Inr [''a'', ''b''], s')
       \<and> messages s' = [\<lparr>role = ''user'', content = ''hi''\<rparr>]
       \<and> map req_n (requests (trace s')) = [2]"
    using samples_in_order_none_appended
      [of example_state "[]" steady_provider "[''a'', ''b'']" 2]
    by (auto simp add: example_state_def steady_provider_def)
  show "\<exists>s'. get_completion flaky_provider 3 example_state = Some (Inr [''a'', ''b''], s')
       \<and> messages s' = [\<lparr>role = ''user'', content = ''hi''\<rparr>]
       \<and> map req_n (requests (trace s')) = [3, 3, 3]"
    using samples_in_order_none_appended
      [of example_state "[RateLimitError, Timeout]" flaky_provider "[''a'', ''b'']" 3]
    by (auto simp add: example_state_def flaky_provider_def less_Suc_eq numeral_2_eq_2
        numeral_3_eq_3)
qed

subsection \<open>Asking twice\<close>

lemma get_model_response_cases:
  assumes "get_model_response provider s = Some (r, s')"
  shows "messages s' = messages s
       \<or> (\<exists>c. r = Inr c \<and> messages s' = messages s @ [\<lparr>role = ''assistant'', content = c\<rparr>])"
proof (cases "messages s = [] \<or> role (last (messages s)) = ''assistant''")
  case True
  with assms show ?thesis
    by (auto simp: get_model_response_def Let_def emit_def split: if_splits)
next
  case False
  with assms obtain q s1 where g: "get_completion provider 1 s = Some (q, s1)"
    by (auto simp: get_model_response_def Let_def split: option.splits)
  then have m: "messages s1 = messages s" by (rule get_completion_keeps)
  from False assms g m show ?thesis
    by (auto simp: get_model_response_def Let_def append_system_message_def
        split: sum.splits list.splits)
qed

text \<open>
  Claim C10. When a call of \<^verbatim>\<open>get_model_response\<close> has returned a string, the
  last message of the conversation is an \<^verbatim>\<open>assistant\<close> message, and a second
  call right after it returns the same string without a provider request and
  without changing the conversation.
\<close>

theorem repeated_response:
  assumes "get_model_response provider s = Some (Inr c, s')"
  shows "\<exists>s''. get_model_response provider s' = Some (Inr c, s'')
      \<and> role (last (messages s')) = ''assistant''
      \<and> messages s'' = messages s'
      \<and> calls s'' = calls s'
      \<and> requests (trace s'') = requests (trace s')"
proof -
  have l: "messages s' \<noteq> [] \<and> last (messages s') = \<lparr>role = ''assistant'', content = c\<rparr>"
  proof (cases "role (last (messages s)) = ''assistant''")
    case True
    with assms show ?thesis
      by (auto simp: get_model_response_def Let_def emit_def split: if_splits)
  next
    case False
    with assms show ?thesis
      by (auto simp: get_model_response_def Let_def append_system_message_def
          split: if_splits option.splits sum.splits list.splits)
  qed
  then show ?thesis
    by (simp add: get_model_response_def Let_def emit_def requests_append)
qed

theorem repeated_response_witness:
  "\<exists>s''. get_model_response steady_provider
           (append_system_message ''a'' (attempt 1 example_state)) = Some (Inr ''a'', s'')
      \<and> calls s'' = 1
      \<and> length (requests (trace s'')) = 1"
proof -
  have "get_completion steady_provider 1 example_state
        = Some (Inr [''a'', ''b''], attempt 1 example_state)"
    by (rule get_completion_success) (simp_all add: example_state_def steady_provider_def)
  then have "get_model_response steady_provider example_state
        = Some (Inr ''a'', append_system_message ''a'' (attempt 1 example_state))"
    by (simp add: get_model_response_def example_state_def)
  from repeated_response [OF this] show ?thesis
    by (auto simp: append_system_message_def attempt_fields requests_append
        example_state_def)
qed

subsection \<open>The example corpus\<close>

lemma add_file_block:
  "read_text fs (path_join rootdir file) = Inr text \<Longrightarrow>
   add_file fs rootdir file acc = Inr (acc @ block (path_join rootdir file) text)"
  by (simp add: add_file_def block_def strip_comments_def)

lemma files_loop_blocks:
  assumes "\<forall>p \<in> set (map (path_join rootdir) (filter (suffix ''rules.toml'') files)).
            \<exists>text. read_text fs p = Inr text"
  shows "files_loop fs rootdir files acc =
         Inr (acc @ concat (map (\<lambda>p. block p (projr (read_text fs p)))
                (map (path_join rootdir) (filter (suffix ''rules.toml'') files))))"
  using assms
proof (induction files arbitrary: acc)
  case Nil
  then show ?case by simp
next
  case (Cons f files)
  show ?case
  proof (cases "suffix ''rules.toml'' f")
    case True
    with Cons.prems obtain body where t: "read_text fs (path_join rootdir f) = Inr body"
      by auto
    from Cons.prems have "\<forall>p \<in> set (map (path_join rootdir) (filter (suffix ''rules.toml'') files)).
            \<exists>text. read_text fs p = Inr text"
      by auto
    from Cons.IH[OF this] True t show ?thesis
      by (simp add: add_file_block)
  next
    case False
    with Cons show ?thesis by simp
  qed
qed

lemma walk_loop_blocks:
  assumes "\<forall>p \<in> set (matching_files triples). \<exists>text. read_text fs p = Inr text"
  shows "walk_loop fs triples acc =
         Inr (acc @ concat (map (\<lambda>p. block p (projr (read_text fs p))) (matching_files triples)))"
  using assms
proof (induction triples arbitrary: acc)
  case Nil
  then show ?case by (simp add: matching_files_def)
next
  case (Cons t triples)
  obtain rootdir dirs files where t: "t = (rootdir, dirs, files)"
    by (cases t)
  from Cons.prems t have here: "\<forall>p \<in> set (map (path_join rootdir) (filter (suffix ''rules.toml'') files)).
            \<exists>text. read_text fs p = Inr text"
    by (simp add: matching_files_def)
  from Cons.prems have rest: "\<forall>p \<in> set (matching_files triples). \<exists>text. read_text fs p = Inr text"
    by (simp add: matching_files_def)
  have mf: "matching_files ((rootdir, dirs, files) # triples) =
      map (path_join rootdir) (filter (suffix ''rules.toml'') files) @ matching_files triples"
    by (simp add: matching_files_def)
  show ?case
    by (simp add: t files_loop_blocks[OF here] Cons.IH[OF rest] mf)
qed

text \<open>
  Claim C9. When every file under the root whose name ends with \<^verbatim>\<open>rules.toml\<close> can
  be read, \<^verbatim>\<open>_get_examples\<close> returns the concatenation, in traversal order, of one
  block per such file: the file's full path between the two header tags, then the
  file's content without the lines that start with \<^verbatim>\<open>#\<close>. Only the matching
  files occur in \<open>matching_files\<close>, so no other file contributes.
\<close>

theorem get_examples_blocks:
  assumes "\<forall>p \<in> set (matching_files (walk fs path)). \<exists>text. read_text fs p = Inr text"
  shows "get_examples fs path =
         Inr (concat (map (\<lambda>p. block p (projr (read_text fs p))) (matching_files (walk fs path))))"
  using walk_loop_blocks [OF assms, of "[]"] by (simp add: get_examples_def)

lemma example_matching:
  "matching_files (walk example_fs ''../../src/cleanup_rules/java'')
   = [''../../src/cleanup_rules/java/a/rules.toml'']"
  by (simp add: matching_files_def example_fs_def path_join_def suffix_def)

theorem get_examples_blocks_witness:
  "get_examples example_fs ''../../src/cleanup_rules/java''
   = Inr (''<file_name_start> ../../src/cleanup_rules/java/a/rules.toml <file_name_end>'' @ [nl]
          @ ''```toml x = 1```'' @ [nl])"
  using get_examples_blocks [of example_fs "''../../src/cleanup_rules/java''"]
  by (simp add: example_matching) (simp add: example_fs_def block_def strip_comments_def)


subsection \<open>Construction\<close>

lemma format_filled:
  assumes "\<forall>k \<in> set [''source_code'', ''source_tree'', ''target_tree'', ''diff'', ''hints''].
             kw k \<noteq> None"
  shows "format input_template kw =
         Inr (concat (map (\<lambda>seg. case seg of Lit t \<Rightarrow> t | Hole k \<Rightarrow> the (kw k)) input_template))"
  using assms by (auto simp: input_template_def)

lemma format_missing:
  assumes "k \<in> set [''source_code'', ''source_tree'', ''target_tree'', ''diff'', ''hints'']"
    and "kw k = None"
  shows "\<exists>k'. format input_template kw = Inl (KeyError k') \<and> kw k' = None
      \<and> k' \<in> set [''source_code'', ''source_tree'', ''target_tree'', ''diff'', ''hints'']"
proof (cases "kw ''source_code''")
  case None
  then show ?thesis by (simp add: input_template_def)
next
  case a: (Some a)
  show ?thesis
  proof (cases "kw ''source_tree''")
    case None
    with a show ?thesis by (simp add: input_template_def)
  next
    case b: (Some b)
    show ?thesis
    proof (cases "kw ''target_tree''")
      case None
      with a b show ?thesis by (simp add: input_template_def)
    next
      case c: (Some c)
      show ?thesis
      proof (cases "kw ''diff''")
        case None
        with a b c show ?thesis by (simp add: input_template_def)
      next
        case d: (Some d)
        show ?thesis
        proof (cases "kw ''hints''")
          case None
          with a b c d show ?thesis by (simp add: input_template_def)
        next
          case (Some h)
          with a b c d assms show ?thesis by auto
        qed
      qed
    qed
  qed
qed

lemma construct_ok:
  assumes "validate s = Inr ()"
    and "get_examples fs ''../../src/cleanup_rules/java'' = Inr examples"
    and "\<forall>k \<in> set [''source_code'', ''source_tree'', ''target_tree'', ''diff'', ''hints''].
           holes s k \<noteq> None"
  shows "construct explanation fs s =
     (Inr (), s\<lparr>messages := messages s @ [\<lparr>role = ''user'', content =
        explanation @ [nl] @ examples @ [nl]
        @ concat (map (\<lambda>seg. case seg of Lit t \<Rightarrow> t | Hole k \<Rightarrow> the (holes s k))
            input_template)\<rparr>]\<rparr>)"
  using assms(1,2) format_filled [OF assms(3)]
  by (simp add: construct_def attrs_post_init_def)

lemma construct_cases:
  assumes "construct explanation fs s = (r, s')"
  shows "(\<exists>e. r = Inl e \<and> s' = s)
       \<or> (r = Inr () \<and> (\<exists>c. s' = s\<lparr>messages := messages s @ [\<lparr>role = ''user'', content = c\<rparr>]\<rparr>))"
proof (cases "validate s")
  case (Inl v)
  with assms have "r = Inl v" "s' = s"
    by (simp_all add: construct_def)
  then show ?thesis by simp
next
  case (Inr u)
  with assms have p: "attrs_post_init explanation fs s = (r, s')"
    by (simp add: construct_def)
  show ?thesis
  proof (cases "get_examples fs ''../../src/cleanup_rules/java''")
    case (Inl f)
    with p have "r = Inl f" "s' = s"
      by (simp_all add: attrs_post_init_def)
    then show ?thesis by simp
  next
    case ex: (Inr examples)
    show ?thesis
    proof (cases "format input_template (holes s)")
      case (Inl g)
      with p ex have "r = Inl g" "s' = s"
        by (simp_all add: attrs_post_init_def)
      then show ?thesis by simp
    next
      case (Inr filled)
      with p ex have "r = Inr ()"
        "s' = s\<lparr>messages := messages s @ [\<lparr>role = ''user'', content =
           explanation @ [nl] @ examples @ [nl] @ filled\<rparr>]\<rparr>"
        by (simp_all add: attrs_post_init_def)
      then show ?thesis by blast
    qed
  qed
qed

text \<open>
  Claim C7. When \<open>holes\<close> lacks one of the five keys of the template, construction
  fails and returns the state it was given: no message has been added, no provider
  call has been made, nothing is in the trace. When the validators and the reading of
  the examples, which run first, succeed, the error is the \<^verbatim>\<open>KeyError\<close> of a
  required key that is missing.
\<close>

theorem missing_hole_fails:
  assumes "k \<in> set [''source_code'', ''source_tree'', ''target_tree'', ''diff'', ''hints'']"
    and "holes s k = None"
  shows "\<exists>e. construct explanation fs s = (Inl e, s)
      \<and> (validate s = Inr ()
           \<and> (\<exists>examples. get_examples fs ''../../src/cleanup_rules/java'' = Inr examples)
         \<longrightarrow> (\<exists>k'. e = KeyError k' \<and> holes s k' = None
               \<and> k' \<in> set [''source_code'', ''source_tree'', ''target_tree'', ''diff'', ''hints'']))"
proof -
  from assms format_missing [of k "holes s"] obtain k' where
    k': "format input_template (holes s) = Inl (KeyError k')" "holes s k' = None"
    "k' \<in> set [''source_code'', ''source_tree'', ''target_tree'', ''diff'', ''hints'']"
    by blast
  show ?thesis
  proof (cases "validate s")
    case (Inl v)
    then show ?thesis by (simp add: construct_def)
  next
    case (Inr u)
    show ?thesis
    proof (cases "get_examples fs ''../../src/cleanup_rules/java''")
      case (Inl f)
      with Inr show ?thesis by (simp add: construct_def attrs_post_init_def)
    next
      case ex: (Inr examples)
      with Inr k'(1) have "construct explanation fs s = (Inl (KeyError k'), s)"
        by (simp add: construct_def attrs_post_init_def)
      with k'(2,3) show ?thesis by blast
    qed
  qed
qed

lemma example_examples:
  "get_examples example_fs ''../../src/cleanup_rules/java''
   = Inr (''<file_name_start> ../../src/cleanup_rules/java/a/rules.toml <file_name_end>'' @ [nl]
          @ ''```toml x = 1```'' @ [nl])"
  using walk_loop_blocks [of "walk example_fs ''../../src/cleanup_rules/java''" example_fs "[]"]
  by (simp add: example_matching get_examples_def)
     (simp add: example_fs_def block_def strip_comments_def)

lemma example_valid: "validate example_state = Inr ()" "validate fresh_state = Inr ()"
  by (simp_all add: validate_def example_state_def fresh_state_def)

theorem missing_hole_fails_witness:
  "\<exists>k'. construct ''E'' example_fs example_state = (Inl (KeyError k'), example_state)
      \<and> calls example_state = 0 \<and> trace example_state = []
      \<and> messages example_state = [\<lparr>role = ''user'', content = ''hi''\<rparr>]"
proof -
  from missing_hole_fails [of "''diff''" example_state "''E''" example_fs]
  obtain e where e: "construct ''E'' example_fs example_state = (Inl e, example_state)"
    "validate example_state = Inr ()
      \<and> (\<exists>examples. get_examples example_fs ''../../src/cleanup_rules/java'' = Inr examples)
     \<longrightarrow> (\<exists>k'. e = KeyError k' \<and> holes example_state k' = None
           \<and> k' \<in> set [''source_code'', ''source_tree'', ''target_tree'', ''diff'', ''hints''])"
    by (auto simp: example_state_def)
  from e(2) example_valid(1) example_examples obtain k' where "e = KeyError k'"
    by auto
  with e(1) show ?thesis
    by (auto simp: example_state_def)
qed

text \<open>
  Claim C8. When the validators pass, the examples can be read and \<open>holes\<close> has the
  five keys of the template, construction appends exactly one message, of role
  \<^verbatim>\<open>user\<close>, whose content is the explanation, a newline, the example corpus, a
  newline, and the template with each field replaced by the value that \<open>holes\<close>
  gives it; with the default empty list it is the only message.
\<close>

theorem construct_seeds_prompt:
  assumes "validate s = Inr ()"
    and "get_examples fs ''../../src/cleanup_rules/java'' = Inr examples"
    and "\<forall>k \<in> set [''source_code'', ''source_tree'', ''target_tree'', ''diff'', ''hints''].
           holes s k \<noteq> None"
  shows "construct explanation fs s =
     (Inr (), s\<lparr>messages := messages s @ [\<lparr>role = ''user'', content =
        explanation @ [nl] @ examples @ [nl]
        @ concat (map (\<lambda>seg. case seg of Lit t \<Rightarrow> t | Hole k \<Rightarrow> the (holes s k))
            input_template)\<rparr>]\<rparr>)"
  using assms by (rule construct_ok)


lemma fresh_holes:
  "\<forall>k \<in> set [''source_code'', ''source_tree'', ''target_tree'', ''diff'', ''hints''].
     holes fresh_state k \<noteq> None"
  by (simp add: fresh_state_def full_holes_def)

theorem construct_seeds_prompt_witness:
  "construct ''E'' example_fs fresh_state =
     (Inr (), fresh_state\<lparr>messages := [\<lparr>role = ''user'', content =
        ''E'' @ [nl]
        @ ''<file_name_start> ../../src/cleanup_rules/java/a/rules.toml <file_name_end>'' @ [nl]
        @ ''```toml x = 1```'' @ [nl] @ [nl]
        @ [nl] @ ''========================= Task ========================='' @ [nl]
        @ [nl] @ ''=== Source code === '' @ [nl] @ [nl] @ ''S'' @ [nl]
        @ [nl] @ ''=== Tree-sitter representation (source code) ==='' @ [nl] @ [nl] @ ''T'' @ [nl]
        @ [nl] @ ''=== Tree-sitter representation (target code) ==='' @ [nl] @ [nl] @ ''U'' @ [nl]
        @ [nl] @ ''=== Diff === '' @ [nl] @ [nl] @ ''D'' @ [nl]
        @ [nl] @ ''=== Additional requirements === '' @ [nl] @ [nl] @ ''H'' @ [nl]
        @ ''========================= Please improve my rule =========================''
        @ [nl] @ [nl] @ ''    ''\<rparr>]\<rparr>)"
  using construct_seeds_prompt [OF example_valid(2) example_examples fresh_holes, of "''E''"]
  by (simp add: input_template_def fresh_state_def full_holes_def)

subsection \<open>The conversation only grows\<close>

text \<open>
  Claim C6. A successful construction appends exactly one \<^verbatim>\<open>user\<close> message, so the
  conversation is not empty afterwards, and a failed one appends nothing;
  \<^verbatim>\<open>append_system_message\<close> and \<^verbatim>\<open>append_user_followup\<close> append exactly one
  message of their role; \<^verbatim>\<open>get_model_response\<close>, whenever it returns or raises,
  leaves the conversation as it was or with one \<^verbatim>\<open>assistant\<close> message appended. The
  messages already there stay as they are, in their order.
\<close>

theorem conversation_append_only:
  "(\<forall>u s'. construct explanation fs s = (Inr u, s') \<longrightarrow>
      messages s' \<noteq> [] \<and> (\<exists>c. messages s' = messages s @ [\<lparr>role = ''user'', content = c\<rparr>]))
   \<and> (\<forall>e s'. construct explanation fs s = (Inl e, s') \<longrightarrow> messages s' = messages s)
   \<and> messages (append_system_message a s) = messages s @ [\<lparr>role = ''assistant'', content = a\<rparr>]
   \<and> messages (append_user_followup b s) = messages s @ [\<lparr>role = ''user'', content = b\<rparr>]
   \<and> (\<forall>r s'. get_model_response provider s = Some (r, s') \<longrightarrow>
        messages s' = messages s
        \<or> (\<exists>c. messages s' = messages s @ [\<lparr>role = ''assistant'', content = c\<rparr>]))"
proof (intro conjI allI impI)
  fix u s' assume c: "construct explanation fs s = (Inr u, s')"
  from construct_cases [OF c]
  obtain c where "s' = s\<lparr>messages := messages s @ [\<lparr>role = ''user'', content = c\<rparr>]\<rparr>"
    by auto
  then show "messages s' \<noteq> []"
    and "\<exists>c. messages s' = messages s @ [\<lparr>role = ''user'', content = c\<rparr>]"
    by simp_all
next
  fix e s' assume c: "construct explanation fs s = (Inl e, s')"
  from construct_cases [OF c] show "messages s' = messages s"
    by auto
next
  show "messages (append_system_message a s) = messages s @ [\<lparr>role = ''assistant'', content = a\<rparr>]"
    by (simp add: append_system_message_def)
next
  show "messages (append_user_followup b s) = messages s @ [\<lparr>role = ''user'', content = b\<rparr>]"
    by (simp add: append_user_followup_def)
next
  fix r s' assume g: "get_model_response provider s = Some (r, s')"
  from get_model_response_cases [OF g]
  show "messages s' = messages s
        \<or> (\<exists>c. messages s' = messages s @ [\<lparr>role = ''assistant'', content = c\<rparr>])"
    by blast
qed

theorem conversation_append_only_witness:
  "messages (snd (construct ''E'' example_fs fresh_state)) \<noteq> []
   \<and> (\<exists>c. messages (snd (construct ''E'' example_fs fresh_state))
           = [\<lparr>role = ''user'', content = c\<rparr>])
   \<and> (messages (append_system_message ''a'' (attempt 1 example_state)) = messages example_state
      \<or> (\<exists>c. messages (append_system_message ''a'' (attempt 1 example_state))
            = messages example_state @ [\<lparr>role = ''assistant'', content = c\<rparr>]))"
proof -
  obtain s1 where c: "construct ''E'' example_fs fresh_state = (Inr (), s1)"
    using construct_ok [OF example_valid(2) example_examples fresh_holes, of "''E''"] by blast
  from conversation_append_only [of "''E''" example_fs fresh_state] c
  have "messages s1 \<noteq> []" "\<exists>c. messages s1 = messages fresh_state @ [\<lparr>role = ''user'', content = c\<rparr>]"
    by blast+
  then have 1: "messages (snd (construct ''E'' example_fs fresh_state)) \<noteq> []"
    "\<exists>c. messages (snd (construct ''E'' example_fs fresh_state)) = [\<lparr>role = ''user'', content = c\<rparr>]"
    using c by (simp_all add: fresh_state_def)
  have "get_completion steady_provider 1 example_state
        = Some (Inr [''a'', ''b''], attempt 1 example_state)"
    by (rule get_completion_success) (simp_all add: example_state_def steady_provider_def)
  then have g: "get_model_response steady_provider example_state
        = Some (Inr ''a'', append_system_message ''a'' (attempt 1 example_state))"
    by (simp add: get_model_response_def example_state_def)
  from conversation_append_only [of _ _ example_state _ _ steady_provider] g
  have 2: "messages (append_system_message ''a'' (attempt 1 example_state)) = messages example_state
      \<or> (\<exists>c. messages (append_system_message ''a'' (attempt 1 example_state))
            = messages example_state @ [\<lparr>role = ''assistant'', content = c\<rparr>])"
    by blast
  from 1 2 show ?thesis by blast
qed

end
